theory Spec2Isabelle
  imports Main
begin

section \<open>The break scheduler of \<open>app/main/lib/breaks.ts\<close>\<close>

text \<open>
  The module keeps six variables (\<open>breakTime\<close>, \<open>havingBreak\<close>, \<open>postponedCount\<close>,
  \<open>idleStart\<close>, \<open>lockStart\<close>, \<open>lastTick\<close>) and is driven by a one-second ticker, by
  the click on the warning notification and by the five-second timeout of the popup.

  Conventions of the embedding.
  \<^item> A \<open>Date\<close> or \<open>Moment\<close> is an \<open>int\<close>: milliseconds of local civil time since
    1970-01-01T00:00 (a Thursday); the zone offset is folded into the number and
    daylight-saving shifts are left out. \<open>null\<close> is \<open>None\<close>.
  \<^item> The module runs on one thread and every entry point runs to completion; all
    clock reads of one run return the same instant, the field \<open>now\<close> of the
    environment.
  \<^item> \<open>getSettings()\<close>, the clock, \<open>powerMonitor\<close>, \<open>setTimeout\<close>, \<open>clearTimeout\<close>
    and the logger do not raise; logging is left out. The calls that leave the module
    towards the user interface (\<open>showNotification\<close>, \<open>sendIpc\<close>, \<open>buildTray\<close>,
    \<open>createBreakWindows\<close>) may raise, as the field \<open>throws\<close> of the environment says.
\<close>

subsection \<open>Settings\<close>

text \<open>
  Modelled from the spec: the types \<open>Settings\<close>, \<open>NotificationType\<close> and
  \<open>NotificationClick\<close> of \<open>types/settings\<close> are imported by the module and are not
  part of the sources at hand. The record has one field for every property the module
  reads. A duration or clock time is stored as a date of which the module reads
  \<open>getHours()\<close>, \<open>getMinutes()\<close> and \<open>getSeconds()\<close>; the record \<open>TimeOfDay\<close>
  holds these three readings.
\<close>

record TimeOfDay =
  hours :: nat
  minutes :: nat
  seconds :: nat

datatype NotificationType = Notification | Popup

datatype NotificationClick = DoNothing | Skip | Postpone

record Settings =
  breaksEnabled :: bool
  notificationType :: NotificationType
  breakFrequency :: TimeOfDay
  breakLength :: TimeOfDay
  postponeLength :: TimeOfDay
  postponeLimit :: "nat option"
  notificationClick :: NotificationClick
  breakTitle :: string
  breakMessage :: string
  gongEnabled :: bool
  workingHoursEnabled :: bool
  workingHoursFrom :: TimeOfDay
  workingHoursTo :: TimeOfDay
  workingHoursMonday :: bool
  workingHoursTuesday :: bool
  workingHoursWednesday :: bool
  workingHoursThursday :: bool
  workingHoursFriday :: bool
  workingHoursSaturday :: bool
  workingHoursSunday :: bool
  idleResetEnabled :: bool
  idleResetLength :: TimeOfDay
  idleResetNotification :: bool

subsection \<open>Module state, effects and outcomes\<close>

datatype IdleState = Active | Idle | Locked | Unknown

text \<open>
  The click handler that \<open>doBreak\<close> hands to \<open>showNotification\<close> is a closure over
  the constants \<open>allowSkip\<close>, \<open>allowPostpone\<close> and \<open>breakTimeout\<close>; the record holds
  the captured values.
\<close>

record ClickHandler =
  allowSkip :: bool
  allowPostpone :: bool
  breakTimeout :: nat

text \<open>The calls that leave the module, with their arguments.\<close>

datatype Effect =
    ShowNotification string "string option" "ClickHandler option"
  | PlayStartGong
  | BuildTray
  | CreateBreakWindows

text \<open>
  The six module variables, followed by what the runtime holds for the module: the
  identifiers of the pending \<open>beginPopupBreak\<close> timeouts, the identifier the next
  \<open>setTimeout\<close> returns, and the calls made so far, oldest first.
\<close>

record Scheduler =
  breakTime :: "int option"
  havingBreak :: bool
  postponedCount :: nat
  idleStart :: "int option"
  lockStart :: "int option"
  lastTick :: "int option"
  timers :: "nat list"
  nextTimer :: nat
  effects :: "Effect list"

record Env =
  settings :: Settings
  now :: int
  systemIdleState :: "nat \<Rightarrow> IdleState"
  throws :: "Effect \<Rightarrow> bool"

text \<open>
  A run either returns or raises; both leave a state behind. \<open>Raised e s\<close> is the
  exception of the call \<open>e\<close>, raised in state \<open>s\<close>.
\<close>

datatype Outcome = Done Scheduler | Raised Effect Scheduler

fun final :: "Outcome \<Rightarrow> Scheduler" where
  "final (Done s) = s"
| "final (Raised e s) = s"

fun raised :: "Outcome \<Rightarrow> bool" where
  "raised (Done s) = False"
| "raised (Raised e s) = True"

text \<open>Sequencing: the rest of a body runs only if the first part returned.\<close>

fun andThen :: "Outcome \<Rightarrow> (Scheduler \<Rightarrow> Outcome) \<Rightarrow> Outcome" where
  "andThen (Done s) f = f s"
| "andThen (Raised e s) f = Raised e s"

text \<open>\<open>try { body } finally { s = g(s) }\<close> with a \<open>finally\<close> block that cannot raise.\<close>

fun tryFinally :: "Outcome \<Rightarrow> (Scheduler \<Rightarrow> Scheduler) \<Rightarrow> Outcome" where
  "tryFinally (Done s) g = Done (g s)"
| "tryFinally (Raised e s) g = Raised e (g s)"

definition extern :: "Env \<Rightarrow> Effect \<Rightarrow> Scheduler \<Rightarrow> Outcome" where
  "extern env e s =
     (if throws env e then Raised e s else Done (s\<lparr>effects := effects s @ [e]\<rparr>))"

subsection \<open>Durations and rounding\<close>

definition getSeconds :: "TimeOfDay \<Rightarrow> nat" where
  "getSeconds date =
     (let n = hours date * 60 * 60 + minutes date * 60 + seconds date
      in if n = 0 then 1 else n)"

definition getIdleResetSeconds :: "Env \<Rightarrow> nat" where
  "getIdleResetSeconds env = getSeconds (idleResetLength (settings env))"

definition getBreakSeconds :: "Env \<Rightarrow> nat" where
  "getBreakSeconds env = getSeconds (breakFrequency (settings env))"

text \<open>
  \<open>Number((ms / 1000).toFixed(0))\<close>: the number of seconds nearest to \<open>ms\<close>
  milliseconds, a half rounded away from zero.
\<close>

definition roundSeconds :: "int \<Rightarrow> int" where
  "roundSeconds ms =
     (if 0 \<le> ms then (ms + 500) div 1000 else - ((- ms + 500) div 1000))"

text \<open>
  \<open>moment(t).add(h, 'hours').add(m, 'minutes').add(s, 'seconds')\<close>: each field is
  added to the instant on its own.
\<close>

definition addTime :: "int \<Rightarrow> TimeOfDay \<Rightarrow> int" where
  "addTime t d =
     t + int (hours d) * 3600000 + int (minutes d) * 60000 + int (seconds d) * 1000"

subsection \<open>The idle notification\<close>

text \<open>\<open>String(n)\<close> for a whole number \<open>n\<close>.\<close>

fun digits :: "nat \<Rightarrow> string" where
  "digits n =
     (if n < 10 then [''0123456789'' ! n]
      else digits (n div 10) @ [''0123456789'' ! (n mod 10)])"

declare digits.simps [simp del]

definition numberToString :: "int \<Rightarrow> string" where
  "numberToString n = (if n < 0 then ''-'' @ digits (nat (- n)) else digits (nat n))"

definition zeroPad :: "int \<Rightarrow> string" where
  "zeroPad n = (let s = numberToString n in if length s = 1 then ''0'' @ s else s)"

definition createIdleNotification :: "Env \<Rightarrow> Scheduler \<Rightarrow> Outcome" where
  "createIdleNotification env s =
     (if \<not> idleResetEnabled (settings env) then Done s
      else
        let total = roundSeconds (now env - (case idleStart s of None \<Rightarrow> 0 | Some t \<Rightarrow> t));
            idleMinutes = (if total > 60 then total div 60 else 0);
            idleSeconds = (if total > 60 then total - idleMinutes * 60 else total);
            idleHours = (if idleMinutes > 60 then idleMinutes div 60 else 0);
            idleMinutes = (if idleMinutes > 60 then idleMinutes - idleHours * 60 else idleMinutes)
        in if idleResetNotification (settings env)
           then extern env
                  (ShowNotification ''Break countdown reset''
                     (Some (''Idle for '' @ zeroPad idleHours @ '':'' @ zeroPad idleMinutes
                              @ '':'' @ zeroPad idleSeconds))
                     None) s
           else Done s)"

subsection \<open>The break life cycle\<close>

definition getBreakTime :: "Scheduler \<Rightarrow> int option" where
  "getBreakTime s = breakTime s"

definition getBreakEndTime :: "Env \<Rightarrow> Scheduler \<Rightarrow> int option" where
  "getBreakEndTime env s =
     (case breakTime s of
        None \<Rightarrow> None
      | Some t \<Rightarrow> Some (addTime t (breakLength (settings env))))"

definition createBreak :: "Env \<Rightarrow> bool \<Rightarrow> Scheduler \<Rightarrow> Outcome" where
  "createBreak env isPostpone s =
     andThen
       (if idleStart s \<noteq> None
        then andThen (createIdleNotification env s)
               (\<lambda>s. Done (s\<lparr>idleStart := None, postponedCount := 0\<rparr>))
        else Done s)
       (\<lambda>s. let freq = (if isPostpone then postponeLength (settings env)
                         else breakFrequency (settings env))
            in extern env BuildTray (s\<lparr>breakTime := Some (addTime (now env) freq)\<rparr>))"

definition beginPopupBreak :: "Env \<Rightarrow> Scheduler \<Rightarrow> Outcome" where
  "beginPopupBreak env s =
     andThen (extern env CreateBreakWindows (s\<lparr>breakTime := Some (now env)\<rparr>))
       (\<lambda>s. if gongEnabled (settings env) then extern env PlayStartGong s else Done s)"

definition endPopupBreak :: "Env \<Rightarrow> Scheduler \<Rightarrow> Outcome" where
  "endPopupBreak env s =
     (if breakTime s \<noteq> None
      then let s = s\<lparr>breakTime := None, havingBreak := False, postponedCount := 0\<rparr>
           in if gongEnabled (settings env) then extern env PlayStartGong s else Done s
      else Done s)"

text \<open>
  \<open>setTimeout(beginPopupBreak, 5000)\<close> and \<open>clearTimeout\<close>; \<open>timeoutFires\<close> is what
  the runtime does when the delay of timeout \<open>i\<close> has passed: a timeout that is
  still pending runs \<open>beginPopupBreak\<close> once, a cleared one does nothing.
\<close>

definition setTimeout :: "Scheduler \<Rightarrow> nat \<times> Scheduler" where
  "setTimeout s =
     (nextTimer s, s\<lparr>timers := timers s @ [nextTimer s], nextTimer := Suc (nextTimer s)\<rparr>)"

definition clearTimeout :: "nat \<Rightarrow> Scheduler \<Rightarrow> Scheduler" where
  "clearTimeout i s = s\<lparr>timers := removeAll i (timers s)\<rparr>"

definition timeoutFires :: "Env \<Rightarrow> nat \<Rightarrow> Scheduler \<Rightarrow> Outcome" where
  "timeoutFires env i s =
     (if i \<in> set (timers s) then beginPopupBreak env (clearTimeout i s) else Done s)"

text \<open>The body of the click handler of the warning, over its captured constants.\<close>

definition notificationClicked :: "Env \<Rightarrow> ClickHandler \<Rightarrow> Scheduler \<Rightarrow> Outcome" where
  "notificationClicked env h s =
     (if allowSkip h
      then Done ((clearTimeout (breakTimeout h) s)\<lparr>breakTime := None, havingBreak := False\<rparr>)
      else if allowPostpone h
      then createBreak env True
             ((clearTimeout (breakTimeout h) (s\<lparr>postponedCount := Suc (postponedCount s)\<rparr>))
                \<lparr>havingBreak := False\<rparr>)
      else Done s)"

definition doBreak :: "Env \<Rightarrow> Scheduler \<Rightarrow> Outcome" where
  "doBreak env s =
     andThen
       (let s = s\<lparr>havingBreak := True\<rparr>
        in if notificationType (settings env) = Notification
           then andThen
                  (extern env
                     (ShowNotification (breakTitle (settings env))
                        (Some (breakMessage (settings env))) None) s)
                  (\<lambda>s. andThen
                         (if gongEnabled (settings env) then extern env PlayStartGong s
                          else Done s)
                         (\<lambda>s. createBreak env False (s\<lparr>havingBreak := False\<rparr>)))
           else Done s)
       (\<lambda>s. if notificationType (settings env) = Popup
            then let (timeout, s) = setTimeout s;
                     skip = (notificationClick (settings env) = Skip);
                     postpone = (notificationClick (settings env) = Postpone \<and>
                                 (case postponeLimit (settings env) of
                                    None \<Rightarrow> True
                                  | Some limit \<Rightarrow> limit = 0 \<or> postponedCount s < limit));
                     body = (if skip then Some ''Click to skip''
                             else if postpone then Some ''Click to postpone''
                             else None)
                 in extern env
                      (ShowNotification ''Break about to start...'' body
                         (Some \<lparr>allowSkip = skip, allowPostpone = postpone,
                                 breakTimeout = timeout\<rparr>)) s
            else Done s)"

text \<open>
  The click handler of the notification shown last, if it has one: the handler a click
  on the warning of \<open>doBreak\<close> runs.
\<close>

fun handlerOf :: "Effect \<Rightarrow> ClickHandler option" where
  "handlerOf (ShowNotification title body h) = h"
| "handlerOf e = None"

definition shownHandler :: "Scheduler \<Rightarrow> ClickHandler option" where
  "shownHandler s = (case rev (effects s) of [] \<Rightarrow> None | e # es \<Rightarrow> handlerOf e)"

subsection \<open>Working hours\<close>

text \<open>
  \<open>moment().day()\<close> is the day of the week, 0 for Sunday to 6 for Saturday;
  \<open>set('hours', h)\<close>, \<open>set('minutes', m)\<close> and \<open>set('seconds', s)\<close> replace one
  field of the local time and keep the others, the milliseconds included.
\<close>

definition day :: "int \<Rightarrow> nat" where
  "day t = nat ((t div 86400000 + 4) mod 7)"

definition setHours :: "int \<Rightarrow> nat \<Rightarrow> int" where
  "setHours t h = t - (t mod 86400000 div 3600000) * 3600000 + int h * 3600000"

definition setMinutes :: "int \<Rightarrow> nat \<Rightarrow> int" where
  "setMinutes t m = t - (t mod 3600000 div 60000) * 60000 + int m * 60000"

definition setSeconds :: "int \<Rightarrow> nat \<Rightarrow> int" where
  "setSeconds t s = t - (t mod 60000 div 1000) * 1000 + int s * 1000"

text \<open>The object literal \<open>days\<close>: its keys are 1 to 7.\<close>

definition days :: "Settings \<Rightarrow> nat \<rightharpoonup> bool" where
  "days st =
     [1 \<mapsto> workingHoursMonday st,
      2 \<mapsto> workingHoursTuesday st,
      3 \<mapsto> workingHoursWednesday st,
      4 \<mapsto> workingHoursThursday st,
      5 \<mapsto> workingHoursFriday st,
      6 \<mapsto> workingHoursSaturday st,
      7 \<mapsto> workingHoursSunday st]"

text \<open>A key that the object does not have reads as \<open>undefined\<close>, which is falsy.\<close>

definition checkInWorkingHours :: "Env \<Rightarrow> bool" where
  "checkInWorkingHours env =
     (if \<not> workingHoursEnabled (settings env) then True
      else
        let isWorkingDay = (case days (settings env) (day (now env)) of
                              None \<Rightarrow> False
                            | Some flag \<Rightarrow> flag)
        in if \<not> isWorkingDay then False
           else
             let hoursFrom = workingHoursFrom (settings env);
                 hoursTo = workingHoursTo (settings env);
                 hoursFrom = setSeconds (setMinutes (setHours (now env) (hours hoursFrom))
                                           (minutes hoursFrom)) 0;
                 hoursTo = setSeconds (setMinutes (setHours (now env) (hours hoursTo))
                                         (minutes hoursTo)) 0
             in if now env < hoursFrom then False
                else if now env > hoursTo then False
                else True)"

subsection \<open>Idle and lock detection\<close>

definition checkIdle :: "Env \<Rightarrow> Scheduler \<Rightarrow> bool \<times> Scheduler" where
  "checkIdle env s =
     (let state = systemIdleState env (getIdleResetSeconds env)
      in if state = Locked
         then (case lockStart s of
                 None \<Rightarrow> (False, s\<lparr>lockStart := Some (now env)\<rparr>)
               | Some t \<Rightarrow>
                   let lockSeconds = roundSeconds (now env - t)
                   in (lockSeconds > int (getIdleResetSeconds env), s))
         else let s = s\<lparr>lockStart := None\<rparr>
              in if \<not> idleResetEnabled (settings env) then (False, s)
                 else (state = Idle, s))"

subsection \<open>The tick\<close>

definition checkShouldHaveBreak :: "Env \<Rightarrow> Scheduler \<Rightarrow> bool \<times> Scheduler" where
  "checkShouldHaveBreak env s =
     (let inWorkingHours = checkInWorkingHours env;
          (idle, s) = checkIdle env s
      in (\<not> havingBreak s \<and> breaksEnabled (settings env) \<and> inWorkingHours \<and> \<not> idle, s))"

text \<open>
  \<open>now > breakTime\<close> compares the two instants as numbers; \<open>null\<close> counts as 0.
\<close>

definition checkBreak :: "Env \<Rightarrow> Scheduler \<Rightarrow> Outcome" where
  "checkBreak env s =
     (if now env > (case breakTime s of None \<Rightarrow> 0 | Some t \<Rightarrow> t) then doBreak env s
      else Done s)"

definition startBreakNow :: "Env \<Rightarrow> Scheduler \<Rightarrow> Scheduler" where
  "startBreakNow env s = s\<lparr>breakTime := Some (now env)\<rparr>"

text \<open>The \<open>try\<close> block of \<open>tick\<close>; each \<open>return\<close> in it ends the block.\<close>

definition tickTry :: "Env \<Rightarrow> Scheduler \<Rightarrow> Outcome" where
  "tickTry env s =
     (let (shouldHaveBreak, s) = checkShouldHaveBreak env s;
          secondsSinceLastTick =
            (case lastTick s of None \<Rightarrow> 0 | Some t \<Rightarrow> roundSeconds (now env - t))
      in andThen
           (if secondsSinceLastTick > int (getBreakSeconds env)
            then Done (s\<lparr>lockStart := None\<rparr>)
            else if secondsSinceLastTick > int (getIdleResetSeconds env)
            then createBreak env False
                   (if idleStart s = None then s\<lparr>lockStart := None, idleStart := lastTick s\<rparr>
                    else s)
            else Done s)
           (\<lambda>s. if \<not> shouldHaveBreak \<and> \<not> havingBreak s \<and> breakTime s \<noteq> None
                then let (idle, s) = checkIdle env s;
                         s = (if idle then s\<lparr>idleStart := Some (now env)\<rparr> else s)
                     in extern env BuildTray (s\<lparr>breakTime := None\<rparr>)
                else if shouldHaveBreak \<and> breakTime s = None
                then createBreak env False s
                else if shouldHaveBreak then checkBreak env s
                else Done s))"

definition tick :: "Env \<Rightarrow> Scheduler \<Rightarrow> Outcome" where
  "tick env s = tryFinally (tickTry env s) (\<lambda>s. s\<lparr>lastTick := Some (now env)\<rparr>)"

text \<open>
  \<open>initBreaks\<close> arms the first break; the ticker it starts then calls \<open>tick\<close> once a
  second.
\<close>

definition initBreaks :: "Env \<Rightarrow> Scheduler \<Rightarrow> Outcome" where
  "initBreaks env s =
     (if breaksEnabled (settings env) then createBreak env False s else Done s)"

subsection \<open>Initial state and sample inputs\<close>

text \<open>The values the module variables are declared with; no timeout, no call yet.\<close>

definition initial :: Scheduler where
  "initial =
     \<lparr>breakTime = None, havingBreak = False, postponedCount = 0, idleStart = None,
      lockStart = None, lastTick = None, timers = [], nextTimer = 0, effects = []\<rparr>"

text \<open>
  Sample settings for the concrete runs below: popup breaks every hour, postponing
  allowed twice, idle reset after five minutes, working hours from 09:00 to 17:00 on
  every day but Saturday, the working-hours gate switched off.
\<close>

definition sampleSettings :: Settings where
  "sampleSettings =
     \<lparr>breaksEnabled = True, notificationType = Popup,
      breakFrequency = \<lparr>hours = 1, minutes = 0, seconds = 0\<rparr>,
      breakLength = \<lparr>hours = 0, minutes = 2, seconds = 0\<rparr>,
      postponeLength = \<lparr>hours = 0, minutes = 3, seconds = 0\<rparr>,
      postponeLimit = Some 2, notificationClick = Postpone,
      breakTitle = ''Time for a break!'', breakMessage = ''Rest your eyes.'',
      gongEnabled = True, workingHoursEnabled = False,
      workingHoursFrom = \<lparr>hours = 9, minutes = 0, seconds = 0\<rparr>,
      workingHoursTo = \<lparr>hours = 17, minutes = 0, seconds = 0\<rparr>,
      workingHoursMonday = True, workingHoursTuesday = True,
      workingHoursWednesday = True, workingHoursThursday = True,
      workingHoursFriday = True, workingHoursSaturday = False,
      workingHoursSunday = True,
      idleResetEnabled = True,
      idleResetLength = \<lparr>hours = 0, minutes = 5, seconds = 0\<rparr>,
      idleResetNotification = False\<rparr>"

text \<open>
  The user is active, no call raises, and the clock stands at 1000 seconds.
\<close>

definition sampleEnv :: Env where
  "sampleEnv =
     \<lparr>settings = sampleSettings, now = 1000000, systemIdleState = (\<lambda>threshold. Active),
      throws = (\<lambda>e. False)\<rparr>"

text \<open>The same, with a tray that fails to rebuild.\<close>

definition trayFailsEnv :: Env where
  "trayFailsEnv = sampleEnv\<lparr>throws := (\<lambda>e. e = BuildTray)\<rparr>"

text \<open>The same as \<open>sampleEnv\<close>, with breaks switched off.\<close>

definition disabledEnv :: Env where
  "disabledEnv = sampleEnv\<lparr>settings := sampleSettings\<lparr>breaksEnabled := False\<rparr>\<rparr>"

text \<open>
  The screen is locked and idle reset is switched off; in \<open>lockedState\<close> the lock
  was first seen at 0, that is 1000 seconds ago.
\<close>

definition lockedEnv :: Env where
  "lockedEnv =
     sampleEnv\<lparr>settings := sampleSettings\<lparr>idleResetEnabled := False\<rparr>,
               systemIdleState := (\<lambda>threshold. Locked)\<rparr>"

definition lockedState :: Scheduler where
  "lockedState = initial\<lparr>lockStart := Some 0\<rparr>"

text \<open>
  Sunday 1970-01-04 at 12:00 (\<open>3 * 86400000 + 12 * 3600000\<close>), working hours on.
\<close>

definition sundayEnv :: Env where
  "sundayEnv =
     sampleEnv\<lparr>settings := sampleSettings\<lparr>workingHoursEnabled := True\<rparr>,
               now := 302400000\<rparr>"

text \<open>The previous tick was 500 seconds before the clock of \<open>sampleEnv\<close>.\<close>

definition gapState :: Scheduler where
  "gapState = initial\<lparr>lastTick := Some 500000\<rparr>"

text \<open>A break that is due, after one and after two postponements.\<close>

definition postponedOnce :: Scheduler where
  "postponedOnce = initial\<lparr>breakTime := Some 900000, postponedCount := 1\<rparr>"

definition postponedTwice :: Scheduler where
  "postponedTwice = initial\<lparr>breakTime := Some 900000, postponedCount := 2\<rparr>"

text \<open>As \<open>sampleEnv\<close>, with a click on the warning skipping the break.\<close>

definition skipEnv :: Env where
  "skipEnv = sampleEnv\<lparr>settings := sampleSettings\<lparr>notificationClick := Skip\<rparr>\<rparr>"

section \<open>Properties\<close>

subsection \<open>Auxiliary facts\<close>

lemmas sample_defs = sampleEnv_def trayFailsEnv_def disabledEnv_def lockedEnv_def
  lockedState_def sundayEnv_def gapState_def postponedOnce_def postponedTwice_def skipEnv_def
  initial_def sampleSettings_def

lemmas run_defs = tick_def tickTry_def checkShouldHaveBreak_def checkInWorkingHours_def
  checkIdle_def checkBreak_def doBreak_def createBreak_def createIdleNotification_def
  getIdleResetSeconds_def getBreakSeconds_def getSeconds_def roundSeconds_def addTime_def
  extern_def setTimeout_def clearTimeout_def notificationClicked_def endPopupBreak_def
  beginPopupBreak_def timeoutFires_def shownHandler_def Let_def

lemma final_tryFinally: "final (tryFinally r g) = g (final r)"
  by (cases r) simp_all

lemma raised_tryFinally: "raised (tryFinally r g) = raised r"
  by (cases r) simp_all

lemma andThen_Done: "andThen r Done = r"
  by (cases r) simp_all

lemma getSeconds_pos: "1 \<le> getSeconds d"
  by (simp add: getSeconds_def Let_def)

lemma addTime_later: "2 \<le> getSeconds d \<Longrightarrow> t < addTime t d"
  by (auto simp: getSeconds_def addTime_def Let_def split: if_splits)

lemma checkIdle_frame:
  "havingBreak (snd (checkIdle env s)) = havingBreak s \<and>
   breakTime (snd (checkIdle env s)) = breakTime s \<and>
   postponedCount (snd (checkIdle env s)) = postponedCount s \<and>
   idleStart (snd (checkIdle env s)) = idleStart s \<and>
   lastTick (snd (checkIdle env s)) = lastTick s \<and>
   timers (snd (checkIdle env s)) = timers s \<and>
   nextTimer (snd (checkIdle env s)) = nextTimer s \<and>
   effects (snd (checkIdle env s)) = effects s"
  by (simp add: checkIdle_def Let_def split: option.splits)

lemma checkIdle_unlocked:
  "lockStart s = None \<Longrightarrow>
   fst (checkIdle env s) =
     (idleResetEnabled (settings env) \<and> systemIdleState env (getIdleResetSeconds env) = Idle)"
  by (auto simp: checkIdle_def Let_def)

lemma createBreak_count:
  "postponedCount (final (createBreak env p s)) =
     (if idleStart s \<noteq> None \<and> \<not> raised (createIdleNotification env s) then 0
      else postponedCount s)"
  by (cases "createIdleNotification env s")
    (auto simp: createBreak_def createIdleNotification_def extern_def Let_def split: if_splits)

lemma createBreak_frame:
  "timers (final (createBreak env p s)) = timers s \<and>
   havingBreak (final (createBreak env p s)) = havingBreak s"
  by (cases "createIdleNotification env s")
    (auto simp: createBreak_def createIdleNotification_def extern_def Let_def split: if_splits)

lemma createBreak_breakTime:
  "\<not> raised (createBreak env p s) \<Longrightarrow>
   breakTime (final (createBreak env p s)) =
     Some (addTime (now env) (if p then postponeLength (settings env)
                              else breakFrequency (settings env)))"
  by (cases "createIdleNotification env s")
    (auto simp: createBreak_def extern_def Let_def split: if_splits)

subsection \<open>Durations\<close>

text \<open>
  C7. For a duration whose hour, minute and second fields are all zero,
  \<open>getSeconds\<close> returns 1 and not 0; for every other duration it returns
  hours * 3600 + minutes * 60 + seconds.
\<close>

theorem getSeconds_zero_is_one:
  "(hours d = 0 \<and> minutes d = 0 \<and> seconds d = 0 \<longrightarrow> getSeconds d = 1 \<and> getSeconds d \<noteq> 0) \<and>
   (\<not> (hours d = 0 \<and> minutes d = 0 \<and> seconds d = 0) \<longrightarrow>
      getSeconds d = hours d * 3600 + minutes d * 60 + seconds d)"
  by (auto simp: getSeconds_def Let_def)

theorem getSeconds_zero_is_one_witness:
  "getSeconds \<lparr>hours = 0, minutes = 0, seconds = 0\<rparr> = 1 \<and>
   getSeconds \<lparr>hours = 1, minutes = 2, seconds = 3\<rparr> = 3723"
  using getSeconds_zero_is_one [of "\<lparr>hours = 0, minutes = 0, seconds = 0\<rparr>"]
        getSeconds_zero_is_one [of "\<lparr>hours = 1, minutes = 2, seconds = 3\<rparr>"]
  by simp

subsection \<open>Ending a break\<close>

text \<open>
  C9. When no break is armed (\<open>breakTime\<close> is \<open>null\<close>), \<open>endPopupBreak\<close> does
  nothing: it returns with all six module variables, the pending timeouts and the list
  of calls made (so no gong is requested) as they were.
\<close>

theorem endPopupBreak_unarmed:
  "breakTime s = None \<Longrightarrow> endPopupBreak env s = Done s"
  by (simp add: endPopupBreak_def)

theorem endPopupBreak_unarmed_witness:
  "breakTime initial = None \<and> endPopupBreak sampleEnv initial = Done initial"
proof -
  have h: "breakTime initial = None"
    by (simp add: initial_def)
  show ?thesis
    using h endPopupBreak_unarmed [OF h, of sampleEnv] by simp
qed

subsection \<open>Clicks on the warning\<close>

text \<open>
  C10. With click behaviour Skip, the handler that \<open>doBreak\<close> registers with the
  warning cancels the timeout, sets \<open>breakTime\<close> to \<open>null\<close> and \<open>havingBreak\<close> to
  false, and changes nothing else, in whatever state and at whatever time the click
  arrives: \<open>postponedCount\<close>, \<open>idleStart\<close>, \<open>lockStart\<close>, \<open>lastTick\<close> and the
  calls made stay as they are. \<open>doBreak\<close> itself leaves \<open>postponedCount\<close> alone in
  popup mode, so a count that has built up survives the skip; and as long as no idle
  period is recorded, the \<open>createBreak\<close> that arms the next break keeps it too.
\<close>

theorem skip_click_frame:
  assumes "notificationType (settings env) = Popup"
    and "notificationClick (settings env) = Skip"
    and "doBreak env s = Done s1"
  shows "\<exists>h. shownHandler s1 = Some h \<and> breakTimeout h \<in> set (timers s1) \<and>
     postponedCount s1 = postponedCount s \<and>
     (\<forall>env' s2.
        notificationClicked env' h s2 =
          Done (s2\<lparr>breakTime := None, havingBreak := False,
                    timers := removeAll (breakTimeout h) (timers s2)\<rparr>) \<and>
        breakTime (final (notificationClicked env' h s2)) = None \<and>
        havingBreak (final (notificationClicked env' h s2)) = False \<and>
        postponedCount (final (notificationClicked env' h s2)) = postponedCount s2 \<and>
        idleStart (final (notificationClicked env' h s2)) = idleStart s2 \<and>
        lockStart (final (notificationClicked env' h s2)) = lockStart s2 \<and>
        lastTick (final (notificationClicked env' h s2)) = lastTick s2 \<and>
        effects (final (notificationClicked env' h s2)) = effects s2 \<and>
        (idleStart s2 = None \<longrightarrow>
           (\<forall>env''. postponedCount
                      (final (createBreak env'' False (final (notificationClicked env' h s2)))) =
                    postponedCount s2)))"
  using assms
  by (auto simp: doBreak_def setTimeout_def extern_def Let_def shownHandler_def
      notificationClicked_def clearTimeout_def createBreak_count split: if_splits)

theorem skip_click_frame_witness:
  "\<exists>h. shownHandler (final (doBreak skipEnv postponedTwice)) = Some h \<and>
     breakTime (final (notificationClicked skipEnv h (final (doBreak skipEnv postponedTwice))))
       = None \<and>
     postponedCount
       (final (notificationClicked skipEnv h (final (doBreak skipEnv postponedTwice)))) = 2"
proof -
  have h1: "notificationType (settings skipEnv) = Popup"
    and h2: "notificationClick (settings skipEnv) = Skip"
    by (simp_all add: sample_defs)
  have h3: "doBreak skipEnv postponedTwice = Done (final (doBreak skipEnv postponedTwice))"
    by (simp add: sample_defs doBreak_def setTimeout_def extern_def)
  from skip_click_frame [OF h1 h2 h3] obtain h where
    shown: "shownHandler (final (doBreak skipEnv postponedTwice)) = Some h" and
    kept: "postponedCount (final (doBreak skipEnv postponedTwice)) =
      postponedCount postponedTwice" and
    click: "\<And>env' s2. breakTime (final (notificationClicked env' h s2)) = None \<and>
      postponedCount (final (notificationClicked env' h s2)) = postponedCount s2"
    by blast
  have "postponedCount postponedTwice = 2"
    by (simp add: postponedTwice_def)
  with shown kept click show ?thesis
    by auto
qed

text \<open>
  C8. With click behaviour Postpone, \<open>doBreak\<close> decides when it shows the warning
  whether the click may postpone. If a limit is set and \<open>postponedCount\<close> has reached
  it (limit 2, count 2 or more), the registered handler does nothing at all, whenever
  the click arrives: no module variable changes, \<open>breakTime\<close> is not moved, the
  timeout stays pending and, when it fires, starts the popup break. If the count is
  below the limit, or no limit is set, the handler increments \<open>postponedCount\<close>,
  cancels the timeout, clears \<open>havingBreak\<close> and calls \<open>createBreak(true)\<close>: the
  cancelled timeout is no longer pending, \<open>havingBreak\<close> is false, a call that
  returns leaves \<open>breakTime\<close> at now plus the postpone length, and
  \<open>postponedCount\<close> is one more than before unless \<open>createBreak\<close> finds an idle
  period recorded (which it closes by resetting the count).
\<close>

theorem postpone_limit:
  assumes "notificationType (settings env) = Popup"
    and "notificationClick (settings env) = Postpone"
    and "doBreak env s = Done s1"
  shows "\<exists>h. shownHandler s1 = Some h \<and> breakTimeout h \<in> set (timers s1) \<and>
     ((\<exists>l. postponeLimit (settings env) = Some l \<and> 0 < l \<and> l \<le> postponedCount s) \<longrightarrow>
        (\<forall>env' s2.
           notificationClicked env' h s2 = Done s2 \<and>
           (breakTimeout h \<in> set (timers s2) \<longrightarrow>
              timeoutFires env' (breakTimeout h) (final (notificationClicked env' h s2)) =
                beginPopupBreak env' (clearTimeout (breakTimeout h) s2)))) \<and>
     ((\<exists>l. postponeLimit (settings env) = Some l \<and> postponedCount s < l) \<or>
      postponeLimit (settings env) = None \<or> postponeLimit (settings env) = Some 0 \<longrightarrow>
        (\<forall>env' s2.
           notificationClicked env' h s2 =
             createBreak env' True
               (s2\<lparr>postponedCount := Suc (postponedCount s2),
                    timers := removeAll (breakTimeout h) (timers s2),
                    havingBreak := False\<rparr>) \<and>
           breakTimeout h \<notin> set (timers (final (notificationClicked env' h s2))) \<and>
           \<not> havingBreak (final (notificationClicked env' h s2)) \<and>
           (idleStart s2 = None \<longrightarrow>
              postponedCount (final (notificationClicked env' h s2)) =
                Suc (postponedCount s2)) \<and>
           (\<not> raised (notificationClicked env' h s2) \<longrightarrow>
              breakTime (final (notificationClicked env' h s2)) =
                Some (addTime (now env') (postponeLength (settings env'))))))"
proof -
  define h where "h = \<lparr>allowSkip = False,
     allowPostpone = (case postponeLimit (settings env) of
                        None \<Rightarrow> True
                      | Some limit \<Rightarrow> limit = 0 \<or> postponedCount s < limit),
     breakTimeout = nextTimer s\<rparr>"
  have shown: "shownHandler s1 = Some h" "breakTimeout h \<in> set (timers s1)"
    using assms
    by (auto simp: doBreak_def setTimeout_def extern_def Let_def shownHandler_def h_def
        split: if_splits option.splits)
  have atLimit: "notificationClicked env' h s2 = Done s2"
    if "\<exists>l. postponeLimit (settings env) = Some l \<and> 0 < l \<and> l \<le> postponedCount s"
    for env' s2
    using that by (auto simp: notificationClicked_def h_def)
  have fires: "timeoutFires env' (breakTimeout h) s2 =
      beginPopupBreak env' (clearTimeout (breakTimeout h) s2)"
    if "breakTimeout h \<in> set (timers s2)" for env' s2
    using that by (simp add: timeoutFires_def)
  have allowed: "allowPostpone h \<and> \<not> allowSkip h"
    if "(\<exists>l. postponeLimit (settings env) = Some l \<and> postponedCount s < l) \<or>
      postponeLimit (settings env) = None \<or> postponeLimit (settings env) = Some 0"
    using that by (auto simp: h_def)
  have click: "notificationClicked env' h s2 =
       createBreak env' True
         (s2\<lparr>postponedCount := Suc (postponedCount s2),
              timers := removeAll (breakTimeout h) (timers s2),
              havingBreak := False\<rparr>)"
    if "allowPostpone h \<and> \<not> allowSkip h" for env' s2
    using that by (simp add: notificationClicked_def clearTimeout_def)
  show ?thesis
  proof (intro exI [of _ h] conjI impI allI)
    show "shownHandler s1 = Some h" "breakTimeout h \<in> set (timers s1)"
      by (rule shown)+
  next
    fix env' :: Env and s2 :: Scheduler
    assume "\<exists>l. postponeLimit (settings env) = Some l \<and> 0 < l \<and> l \<le> postponedCount s"
    then show "notificationClicked env' h s2 = Done s2"
      by (rule atLimit)
  next
    fix env' :: Env and s2 :: Scheduler
    assume a: "\<exists>l. postponeLimit (settings env) = Some l \<and> 0 < l \<and> l \<le> postponedCount s"
      and b: "breakTimeout h \<in> set (timers s2)"
    show "timeoutFires env' (breakTimeout h) (final (notificationClicked env' h s2)) =
        beginPopupBreak env' (clearTimeout (breakTimeout h) s2)"
      by (simp add: atLimit [OF a] fires [OF b])
  next
    fix env' :: Env and s2 :: Scheduler
    assume "(\<exists>l. postponeLimit (settings env) = Some l \<and> postponedCount s < l) \<or>
      postponeLimit (settings env) = None \<or> postponeLimit (settings env) = Some 0"
    then have c: "notificationClicked env' h s2 =
       createBreak env' True
         (s2\<lparr>postponedCount := Suc (postponedCount s2),
              timers := removeAll (breakTimeout h) (timers s2),
              havingBreak := False\<rparr>)"
      using allowed click by blast
    show "notificationClicked env' h s2 =
       createBreak env' True
         (s2\<lparr>postponedCount := Suc (postponedCount s2),
              timers := removeAll (breakTimeout h) (timers s2),
              havingBreak := False\<rparr>)"
      by (rule c)
    show "breakTimeout h \<notin> set (timers (final (notificationClicked env' h s2)))"
      by (simp add: c createBreak_frame)
    show "\<not> havingBreak (final (notificationClicked env' h s2))"
      by (simp add: c createBreak_frame)
    show "postponedCount (final (notificationClicked env' h s2)) = Suc (postponedCount s2)"
      if "idleStart s2 = None"
      using that by (simp add: c createBreak_count)
    show "breakTime (final (notificationClicked env' h s2)) =
        Some (addTime (now env') (postponeLength (settings env')))"
      if "\<not> raised (notificationClicked env' h s2)"
      using that createBreak_breakTime [of env' True] by (simp add: c)
  qed
qed

theorem postpone_limit_witness:
  "(\<exists>h. shownHandler (final (doBreak sampleEnv postponedTwice)) = Some h \<and>
      notificationClicked sampleEnv h (final (doBreak sampleEnv postponedTwice)) =
        Done (final (doBreak sampleEnv postponedTwice))) \<and>
   (\<exists>h. shownHandler (final (doBreak sampleEnv postponedOnce)) = Some h \<and>
      postponedCount
        (final (notificationClicked sampleEnv h (final (doBreak sampleEnv postponedOnce)))) = 2 \<and>
      breakTime
        (final (notificationClicked sampleEnv h (final (doBreak sampleEnv postponedOnce)))) =
        Some 1180000)"
proof -
  have h1: "notificationType (settings sampleEnv) = Popup"
    and h2: "notificationClick (settings sampleEnv) = Postpone"
    and lim: "postponeLimit (settings sampleEnv) = Some 2"
    by (simp_all add: sample_defs)
  have two: "doBreak sampleEnv postponedTwice = Done (final (doBreak sampleEnv postponedTwice))"
    and one: "doBreak sampleEnv postponedOnce = Done (final (doBreak sampleEnv postponedOnce))"
    by (simp_all add: sample_defs doBreak_def setTimeout_def extern_def)
  have c2: "postponedCount postponedTwice = 2" and c1: "postponedCount postponedOnce = 1"
    by (simp_all add: postponedTwice_def postponedOnce_def)
  have idle: "idleStart (final (doBreak sampleEnv postponedOnce)) = None"
    by (simp add: sample_defs doBreak_def setTimeout_def extern_def)
  have cnt: "postponedCount (final (doBreak sampleEnv postponedOnce)) = 1"
    by (simp add: sample_defs doBreak_def setTimeout_def extern_def)
  have quiet: "\<not> raised (createBreak sampleEnv True x)" for x
    by (cases "idleStart x")
      (simp_all add: sample_defs createBreak_def createIdleNotification_def extern_def)
  have t: "addTime (now sampleEnv) (postponeLength (settings sampleEnv)) = 1180000"
    by (simp add: sample_defs addTime_def)
  have reached: "\<exists>l. postponeLimit (settings sampleEnv) = Some l \<and> 0 < l \<and>
      l \<le> postponedCount postponedTwice"
    by (simp add: lim c2)
  have below: "(\<exists>l. postponeLimit (settings sampleEnv) = Some l \<and>
      postponedCount postponedOnce < l) \<or>
      postponeLimit (settings sampleEnv) = None \<or> postponeLimit (settings sampleEnv) = Some 0"
    by (simp add: lim c1)
  from postpone_limit [OF h1 h2 two] reached have first:
    "\<exists>h. shownHandler (final (doBreak sampleEnv postponedTwice)) = Some h \<and>
      notificationClicked sampleEnv h (final (doBreak sampleEnv postponedTwice)) =
        Done (final (doBreak sampleEnv postponedTwice))"
    by blast
  from postpone_limit [OF h1 h2 one] below obtain h where
    shown: "shownHandler (final (doBreak sampleEnv postponedOnce)) = Some h" and
    eq: "\<And>env' s2.
      notificationClicked env' h s2 =
        createBreak env' True
          (s2\<lparr>postponedCount := Suc (postponedCount s2),
               timers := removeAll (breakTimeout h) (timers s2),
               havingBreak := False\<rparr>)" and
    click: "\<And>env' s2.
      (idleStart s2 = None \<longrightarrow>
         postponedCount (final (notificationClicked env' h s2)) = Suc (postponedCount s2)) \<and>
      (\<not> raised (notificationClicked env' h s2) \<longrightarrow>
         breakTime (final (notificationClicked env' h s2)) =
           Some (addTime (now env') (postponeLength (settings env'))))"
    by blast
  have "\<not> raised (notificationClicked sampleEnv h (final (doBreak sampleEnv postponedOnce)))"
    by (simp add: eq quiet)
  with click [of "final (doBreak sampleEnv postponedOnce)" sampleEnv] idle cnt t
  have "postponedCount
        (final (notificationClicked sampleEnv h (final (doBreak sampleEnv postponedOnce)))) = 2 \<and>
      breakTime
        (final (notificationClicked sampleEnv h (final (doBreak sampleEnv postponedOnce)))) =
        Some 1180000"
    by simp
  with shown first show ?thesis
    by blast
qed

subsection \<open>Where the postpone count is reset\<close>

text \<open>
  Starting a break does not reset \<open>postponedCount\<close>: after one postponement
  \<open>doBreak\<close> shows the popup warning, \<open>havingBreak\<close> is true, and the count is
  still 1.
\<close>

theorem doBreak_keeps_count_counterexample:
  "postponedCount postponedOnce = 1 \<and>
   \<not> raised (doBreak sampleEnv postponedOnce) \<and>
   havingBreak (final (doBreak sampleEnv postponedOnce)) \<and>
   \<not> (postponedCount (final (doBreak sampleEnv postponedOnce)) = 0)"
  by (simp add: sample_defs run_defs)

text \<open>
  C5, amended. \<open>doBreak\<close> leaves \<open>postponedCount\<close> as it is in popup mode and
  whenever no idle period is recorded; in notification mode with an idle period
  recorded its call of \<open>createBreak\<close> may reset the count, and these are the only two
  outcomes. The count is reset to 0 by \<open>endPopupBreak\<close> when a break is armed (and
  left alone when none is), and by every \<open>createBreak\<close> that finds an idle period
  recorded and returns; \<open>createBreak\<close> without an idle period leaves it alone.
\<close>

theorem postponedCount_resets:
  "(notificationType (settings env) = Popup \<or> idleStart s = None \<longrightarrow>
      postponedCount (final (doBreak env s)) = postponedCount s) \<and>
   (postponedCount (final (doBreak env s)) = postponedCount s \<or>
      postponedCount (final (doBreak env s)) = 0) \<and>
   (breakTime s \<noteq> None \<longrightarrow> postponedCount (final (endPopupBreak env s)) = 0) \<and>
   (breakTime s = None \<longrightarrow>
      postponedCount (final (endPopupBreak env s)) = postponedCount s) \<and>
   (idleStart s \<noteq> None \<and> \<not> raised (createBreak env p s) \<longrightarrow>
      postponedCount (final (createBreak env p s)) = 0) \<and>
   (idleStart s = None \<longrightarrow>
      postponedCount (final (createBreak env p s)) = postponedCount s)"
proof -
  have popup: "notificationType (settings env) = Popup \<Longrightarrow>
      postponedCount (final (doBreak env s)) = postponedCount s"
    by (simp add: doBreak_def setTimeout_def extern_def Let_def)
  have notif: "notificationType (settings env) = Notification \<Longrightarrow>
      postponedCount (final (doBreak env s)) = postponedCount s \<or>
      postponedCount (final (doBreak env s)) = 0"
    by (simp add: doBreak_def extern_def createBreak_count Let_def andThen_Done)
  have noidle: "notificationType (settings env) = Notification \<Longrightarrow> idleStart s = None \<Longrightarrow>
      postponedCount (final (doBreak env s)) = postponedCount s"
    by (simp add: doBreak_def extern_def createBreak_count Let_def andThen_Done)
  have e: "breakTime s \<noteq> None \<longrightarrow> postponedCount (final (endPopupBreak env s)) = 0"
    by (simp add: endPopupBreak_def extern_def Let_def)
  have e': "breakTime s = None \<longrightarrow>
      postponedCount (final (endPopupBreak env s)) = postponedCount s"
    by (simp add: endPopupBreak_def)
  have c: "idleStart s \<noteq> None \<and> \<not> raised (createBreak env p s) \<longrightarrow>
      postponedCount (final (createBreak env p s)) = 0"
    by (cases "createIdleNotification env s") (auto simp: createBreak_def extern_def Let_def)
  have c': "idleStart s = None \<longrightarrow>
      postponedCount (final (createBreak env p s)) = postponedCount s"
    by (simp add: createBreak_count)
  show ?thesis
    using popup notif noidle e e' c c' by (cases "notificationType (settings env)") auto
qed

theorem postponedCount_resets_witness:
  "postponedCount (final (doBreak sampleEnv postponedOnce)) = 1 \<and>
   postponedCount (final (endPopupBreak sampleEnv postponedOnce)) = 0 \<and>
   postponedCount (final (endPopupBreak sampleEnv (initial\<lparr>postponedCount := 1\<rparr>))) = 1 \<and>
   postponedCount
     (final (createBreak sampleEnv False (postponedOnce\<lparr>idleStart := Some 0\<rparr>))) = 0 \<and>
   postponedCount (final (createBreak sampleEnv False postponedOnce)) = 1"
proof -
  have a: "notificationType (settings sampleEnv) = Popup" "idleStart postponedOnce = None"
    "breakTime postponedOnce \<noteq> None" "postponedCount postponedOnce = 1"
    by (simp_all add: sample_defs)
  have b: "breakTime (initial\<lparr>postponedCount := 1\<rparr>) = None"
    by (simp add: initial_def)
  have c: "idleStart (postponedOnce\<lparr>idleStart := Some 0\<rparr>) \<noteq> None"
    "\<not> raised (createBreak sampleEnv False (postponedOnce\<lparr>idleStart := Some 0\<rparr>))"
    by (simp_all add: sample_defs createBreak_def createIdleNotification_def extern_def)
  show ?thesis
    using postponedCount_resets [of sampleEnv postponedOnce False]
      postponedCount_resets [of sampleEnv "initial\<lparr>postponedCount := 1\<rparr>" False]
      postponedCount_resets [of sampleEnv "postponedOnce\<lparr>idleStart := Some 0\<rparr>" False]
      a b c
    by simp
qed

subsection \<open>Idle detection with idle reset switched off\<close>

text \<open>
  With idle reset switched off, a lock that has lasted 1000 seconds, against a
  threshold of 300, still makes \<open>checkIdle\<close> return true.
\<close>

theorem checkIdle_locked_counterexample:
  "\<not> idleResetEnabled (settings lockedEnv) \<and>
   systemIdleState lockedEnv (getIdleResetSeconds lockedEnv) = Locked \<and>
   lockStart lockedState = Some 0 \<and>
   int (getIdleResetSeconds lockedEnv) < roundSeconds (now lockedEnv - 0) \<and>
   \<not> (fst (checkIdle lockedEnv lockedState) = False)"
  by (simp add: sample_defs run_defs)

text \<open>
  C3, amended. With idle reset switched off, \<open>checkIdle\<close> returns false whenever the
  system is not locked, and on the tick that first sees a lock. Under a lock seen
  before, it returns true exactly when the lock has lasted more than the idle reset
  length (in rounded seconds): the lock branch is taken before the setting is read.
\<close>

theorem checkIdle_disabled:
  "\<not> idleResetEnabled (settings env) \<Longrightarrow>
   fst (checkIdle env s) =
     (systemIdleState env (getIdleResetSeconds env) = Locked \<and>
      (case lockStart s of
         None \<Rightarrow> False
       | Some t \<Rightarrow> roundSeconds (now env - t) > int (getIdleResetSeconds env)))"
  by (simp add: checkIdle_def Let_def split: option.splits)

theorem checkIdle_disabled_witness:
  "\<not> idleResetEnabled (settings lockedEnv) \<and>
   fst (checkIdle lockedEnv lockedState) \<and>
   \<not> fst (checkIdle lockedEnv initial) \<and>
   \<not> fst (checkIdle (lockedEnv\<lparr>systemIdleState := (\<lambda>threshold. Idle)\<rparr>) lockedState)"
proof -
  have h: "\<not> idleResetEnabled (settings lockedEnv)"
    "\<not> idleResetEnabled (settings (lockedEnv\<lparr>systemIdleState := (\<lambda>threshold. Idle)\<rparr>))"
    by (simp_all add: sample_defs)
  show ?thesis
    using h checkIdle_disabled [OF h(1), of lockedState] checkIdle_disabled [OF h(1), of initial]
      checkIdle_disabled [OF h(2), of lockedState]
    by (simp add: sample_defs getIdleResetSeconds_def getSeconds_def roundSeconds_def)
qed

subsection \<open>Working hours on a Sunday\<close>

text \<open>
  On every day from Monday to Saturday the gate answers as described: the flag of the
  day, and then \<open>from \<le> now \<le> to\<close>.
\<close>

lemma checkInWorkingHours_weekday:
  assumes "workingHoursEnabled (settings env)" and "1 \<le> day (now env)" and "day (now env) \<le> 6"
  shows "checkInWorkingHours env =
     ([workingHoursMonday (settings env), workingHoursTuesday (settings env),
       workingHoursWednesday (settings env), workingHoursThursday (settings env),
       workingHoursFriday (settings env), workingHoursSaturday (settings env)]
        ! (day (now env) - 1) \<and>
      setSeconds (setMinutes (setHours (now env) (hours (workingHoursFrom (settings env))))
                    (minutes (workingHoursFrom (settings env)))) 0 \<le> now env \<and>
      now env \<le>
      setSeconds (setMinutes (setHours (now env) (hours (workingHoursTo (settings env))))
                    (minutes (workingHoursTo (settings env)))) 0)"
proof -
  from assms(2,3) have "day (now env) = 1 \<or> day (now env) = 2 \<or> day (now env) = 3 \<or>
      day (now env) = 4 \<or> day (now env) = 5 \<or> day (now env) = 6"
    by arith
  with assms(1) show ?thesis
    by (auto simp: checkInWorkingHours_def days_def Let_def)
qed

lemma checkInWorkingHours_sunday_closed:
  "workingHoursEnabled (settings env) \<Longrightarrow> day (now env) = 0 \<Longrightarrow> \<not> checkInWorkingHours env"
  by (simp add: checkInWorkingHours_def days_def)

text \<open>
  C4. With working hours on, the gate is to return false on a day whose flag is off and
  \<open>from \<le> now \<le> to\<close> on a day whose flag is on, Sunday included. On Sunday
  1970-01-04 at 12:00, with the Sunday flag on and hours from 09:00 to 17:00, noon lies
  between the two bounds and yet \<open>checkInWorkingHours\<close> returns false: \<open>day()\<close>
  is 0 on a Sunday and the table \<open>days\<close> keeps the Sunday flag under the key 7.
\<close>

theorem checkInWorkingHours_sunday:
  "workingHoursEnabled (settings sundayEnv) \<and> workingHoursSunday (settings sundayEnv) \<and>
   day (now sundayEnv) = 0 \<and>
   setSeconds (setMinutes (setHours (now sundayEnv) 9) 0) 0 \<le> now sundayEnv \<and>
   now sundayEnv \<le> setSeconds (setMinutes (setHours (now sundayEnv) 17) 0) 0 \<and>
   checkInWorkingHours sundayEnv = False"
  by (simp add: sample_defs run_defs day_def days_def setSeconds_def setMinutes_def
      setHours_def)

subsection \<open>The tick after a gap\<close>

text \<open>
  A tick 500 seconds after the previous one, with an idle reset length of 300 seconds, a
  break frequency of 3600 seconds and no idle period recorded. With breaks enabled the
  tick ends with \<open>idleStart\<close> empty, not at the previous \<open>lastTick\<close>; with breaks
  disabled it ends with no break armed.
\<close>

theorem tick_gap_counterexample:
  "lastTick gapState = Some 500000 \<and> idleStart gapState = None \<and>
   roundSeconds (now sampleEnv - 500000) = 500 \<and>
   getIdleResetSeconds sampleEnv = 300 \<and> getBreakSeconds sampleEnv = 3600 \<and>
   idleStart (final (tick sampleEnv gapState)) = None \<and>
   \<not> (idleStart (final (tick sampleEnv gapState)) = lastTick gapState) \<and>
   roundSeconds (now disabledEnv - 500000) = 500 \<and>
   getIdleResetSeconds disabledEnv = 300 \<and> getBreakSeconds disabledEnv = 3600 \<and>
   breakTime (final (tick disabledEnv gapState)) = None"
  by (simp add: sample_defs run_defs)

text \<open>
  C1, amended. Let the gap since the previous tick exceed the idle reset length but not
  the break frequency (500 against 300 and 3600), let no idle period be recorded, and
  let no call raise. Then \<open>tick\<close> puts the previous \<open>lastTick\<close> into \<open>idleStart\<close>
  only for the \<open>createBreak\<close> it calls next: the idle notification is made for an
  idle period that began at the previous \<open>lastTick\<close>, and \<open>createBreak\<close> empties
  \<open>idleStart\<close> and resets \<open>postponedCount\<close>. After the tick \<open>idleStart\<close> is
  not the previous \<open>lastTick\<close>: it is empty, or the current time if the tick went on
  to find the user idle. The fresh break, at now plus the break frequency, stays armed
  exactly when a break is due to be scheduled (\<open>checkShouldHaveBreak\<close>) or one is
  being had; otherwise the same tick disarms it again.
\<close>

theorem tick_gap_rearms:
  assumes gap: "lastTick s = Some t" "idleStart s = None"
    "int (getIdleResetSeconds env) < roundSeconds (now env - t)"
    "roundSeconds (now env - t) \<le> int (getBreakSeconds env)"
    and quiet: "\<forall>e. \<not> throws env e"
  shows "\<not> raised (tick env s) \<and>
     lastTick (final (tick env s)) = Some (now env) \<and>
     postponedCount (final (tick env s)) = 0 \<and>
     idleStart (final (tick env s)) \<noteq> lastTick s \<and>
     idleStart (final (tick env s)) =
       (if \<not> fst (checkShouldHaveBreak env s) \<and> \<not> havingBreak s \<and>
           idleResetEnabled (settings env) \<and>
           systemIdleState env (getIdleResetSeconds env) = Idle
        then Some (now env) else None) \<and>
     breakTime (final (tick env s)) =
       (if fst (checkShouldHaveBreak env s) \<or> havingBreak s
        then Some (addTime (now env) (breakFrequency (settings env))) else None) \<and>
     effects (final (tick env s)) =
       effects (final (createIdleNotification env (s\<lparr>idleStart := Some t\<rparr>))) @ [BuildTray] @
       (if fst (checkShouldHaveBreak env s) \<or> havingBreak s then [] else [BuildTray])"
proof -
  obtain idle s1 where c: "checkIdle env s = (idle, s1)"
    by (cases "checkIdle env s")
  have fr: "havingBreak s1 = havingBreak s" "idleStart s1 = None" "lastTick s1 = Some t"
    "effects s1 = effects s"
    using checkIdle_frame [of env s] c gap by simp_all
  define should where "should = (\<not> havingBreak s \<and> breaksEnabled (settings env) \<and>
     checkInWorkingHours env \<and> \<not> idle)"
  have sh: "checkShouldHaveBreak env s = (should, s1)"
    by (simp add: checkShouldHaveBreak_def c should_def fr)
  define s2 where "s2 = s1\<lparr>lockStart := None, idleStart := Some t\<rparr>"
  define E where "E = effects (final (createIdleNotification env (s\<lparr>idleStart := Some t\<rparr>)))"
  have e2: "effects s2 = effects s" "idleStart s2 = Some t"
    by (simp_all add: s2_def fr)
  have n: "createIdleNotification env s2 = Done (s2\<lparr>effects := E\<rparr>)"
    using quiet e2 by (simp add: createIdleNotification_def extern_def Let_def E_def)
  define s4 where "s4 = s2\<lparr>effects := E @ [BuildTray], idleStart := None, postponedCount := 0,
     breakTime := Some (addTime (now env) (breakFrequency (settings env)))\<rparr>"
  have cb: "createBreak env False s2 = Done s4"
    using quiet by (simp add: createBreak_def n e2 extern_def s4_def)
  have ne: "now env \<noteq> t"
    using gap(3) by (auto simp: roundSeconds_def)
  have "2 \<le> getSeconds (breakFrequency (settings env))"
    using gap(3,4) getSeconds_pos [of "idleResetLength (settings env)"]
    by (simp add: getIdleResetSeconds_def getBreakSeconds_def)
  then have later: "now env < addTime (now env) (breakFrequency (settings env))"
    by (rule addTime_later)
  have s4f: "havingBreak s4 = havingBreak s" "lockStart s4 = None"
    by (simp_all add: s4_def s2_def fr)
  have tt: "tickTry env s =
     (if \<not> should \<and> \<not> havingBreak s
      then let (idle, s) = checkIdle env s4;
               s = (if idle then s\<lparr>idleStart := Some (now env)\<rparr> else s)
           in extern env BuildTray (s\<lparr>breakTime := None\<rparr>)
      else Done s4)"
    using gap(3,4) later
    by (simp add: tickTry_def sh fr cb s2_def [symmetric] s4f checkBreak_def)
      (simp add: s4_def)
  obtain idle' s5 where c': "checkIdle env s4 = (idle', s5)"
    by (cases "checkIdle env s4")
  have i': "idle' = (idleResetEnabled (settings env) \<and>
       systemIdleState env (getIdleResetSeconds env) = Idle)"
    using checkIdle_unlocked [OF s4f(2), of env] c' by simp
  have fr5: "postponedCount s5 = 0" "idleStart s5 = None" "effects s5 = E @ [BuildTray]"
    using checkIdle_frame [of env s4] c' by (simp_all add: s4_def)
  show ?thesis
    using quiet ne
    by (simp add: tick_def tt c' sh extern_def gap(1) fr5 i' E_def [symmetric])
      (simp add: s4_def)
qed

theorem tick_gap_rearms_witness:
  "lastTick gapState = Some 500000 \<and> idleStart gapState = None \<and>
   int (getIdleResetSeconds sampleEnv) < roundSeconds (now sampleEnv - 500000) \<and>
   roundSeconds (now sampleEnv - 500000) \<le> int (getBreakSeconds sampleEnv) \<and>
   (\<forall>e. \<not> throws sampleEnv e) \<and>
   idleStart (final (tick sampleEnv gapState)) = None \<and>
   breakTime (final (tick sampleEnv gapState)) = Some 4600000 \<and>
   lastTick (final (tick sampleEnv gapState)) = Some 1000000"
proof -
  have h1: "lastTick gapState = Some 500000" and h2: "idleStart gapState = None"
    by (simp_all add: sample_defs)
  have h3: "int (getIdleResetSeconds sampleEnv) < roundSeconds (now sampleEnv - 500000)"
    and h4: "roundSeconds (now sampleEnv - 500000) \<le> int (getBreakSeconds sampleEnv)"
    by (simp_all add: sample_defs getIdleResetSeconds_def getBreakSeconds_def getSeconds_def
        roundSeconds_def)
  have h5: "\<forall>e. \<not> throws sampleEnv e"
    by (simp add: sample_defs)
  have should: "fst (checkShouldHaveBreak sampleEnv gapState)"
    by (simp add: sample_defs checkShouldHaveBreak_def checkInWorkingHours_def checkIdle_def
        getIdleResetSeconds_def getSeconds_def)
  have t: "addTime (now sampleEnv) (breakFrequency (settings sampleEnv)) = 4600000"
    "now sampleEnv = 1000000"
    by (simp_all add: sample_defs addTime_def)
  show ?thesis
    using tick_gap_rearms [OF h1 h2 h3 h4 h5] h1 h2 h3 h4 h5 should t
    by simp
qed

subsection \<open>Exceptions in a tick\<close>

text \<open>
  The first tick after start arms a break and rebuilds the tray. If the tray raises,
  the exception leaves \<open>tick\<close>.
\<close>

theorem tick_propagates_counterexample:
  "tickTry trayFailsEnv initial =
     Raised BuildTray (initial\<lparr>breakTime := Some 4600000\<rparr>) \<and>
   tick trayFailsEnv initial =
     Raised BuildTray (initial\<lparr>breakTime := Some 4600000, lastTick := Some 1000000\<rparr>) \<and>
   raised (tick trayFailsEnv initial)"
  by (simp add: sample_defs run_defs)

text \<open>
  C2, amended. \<open>tick\<close> is a \<open>try\<close> with a \<open>finally\<close> and no \<open>catch\<close>: an exception
  raised inside the \<open>try\<close> block leaves \<open>tick\<close> as the same exception, after
  \<open>lastTick\<close> has been set to the current time; a block that returns makes \<open>tick\<close>
  return, with the same update.
\<close>

theorem tick_exception_propagates:
  "(tickTry env s = Raised e s' \<longrightarrow>
      tick env s = Raised e (s'\<lparr>lastTick := Some (now env)\<rparr>)) \<and>
   (tickTry env s = Done s' \<longrightarrow>
      tick env s = Done (s'\<lparr>lastTick := Some (now env)\<rparr>))"
  by (simp add: tick_def)

theorem tick_exception_propagates_witness:
  "tickTry trayFailsEnv initial = Raised BuildTray (initial\<lparr>breakTime := Some 4600000\<rparr>) \<and>
   tick trayFailsEnv initial =
     Raised BuildTray (initial\<lparr>breakTime := Some 4600000, lastTick := Some 1000000\<rparr>)"
proof -
  have h: "tickTry trayFailsEnv initial =
      Raised BuildTray (initial\<lparr>breakTime := Some 4600000\<rparr>)"
    by (simp add: sample_defs tickTry_def checkShouldHaveBreak_def checkInWorkingHours_def
        checkIdle_def getIdleResetSeconds_def getBreakSeconds_def getSeconds_def
        createBreak_def extern_def addTime_def)
  have n: "now trayFailsEnv = 1000000"
    by (simp add: sample_defs)
  show ?thesis
    using h n tick_exception_propagates [of trayFailsEnv initial BuildTray
        "initial\<lparr>breakTime := Some 4600000\<rparr>"]
    by simp
qed

text \<open>
  C6. Every run of \<open>tick\<close> ends by setting \<open>lastTick\<close> to the current time, whether
  the \<open>try\<close> block returned, returned early or raised: the state \<open>tick\<close> leaves is
  the state the block left with \<open>lastTick\<close> updated and nothing else changed, and
  \<open>tick\<close> raises exactly when the block did.
\<close>

theorem tick_sets_lastTick:
  "lastTick (final (tick env s)) = Some (now env) \<and>
   final (tick env s) = (final (tickTry env s))\<lparr>lastTick := Some (now env)\<rparr> \<and>
   raised (tick env s) = raised (tickTry env s)"
  by (simp add: tick_def final_tryFinally raised_tryFinally)

theorem tick_sets_lastTick_witness:
  "lastTick (final (tick sampleEnv initial)) = Some 1000000 \<and>
   \<not> raised (tick sampleEnv initial) \<and>
   lastTick (final (tick trayFailsEnv initial)) = Some 1000000 \<and>
   raised (tick trayFailsEnv initial)"
proof -
  have n: "now sampleEnv = 1000000" "now trayFailsEnv = 1000000"
    by (simp_all add: sample_defs)
  have r: "\<not> raised (tickTry sampleEnv initial)" "raised (tickTry trayFailsEnv initial)"
    by (simp_all add: sample_defs tickTry_def checkShouldHaveBreak_def
        checkInWorkingHours_def checkIdle_def getIdleResetSeconds_def getBreakSeconds_def
        getSeconds_def createBreak_def extern_def)
  show ?thesis
    using n r tick_sets_lastTick [of sampleEnv initial] tick_sets_lastTick [of trayFailsEnv initial]
    by simp
qed

end
